theory Spec2Isabelle
  imports Main "HOL-Library.AList"
begin

section \<open>Browser storage\<close>

text \<open>
  \<open>localStorage\<close> is a key-value store of strings. \<open>getItem\<close> answers \<open>null\<close>
  (here \<open>None\<close>) for a missing key; \<open>setItem\<close> overwrites; \<open>removeItem\<close> deletes.
\<close>

type_synonym storage = "(string \<times> string) list"

definition getItem :: "string \<Rightarrow> storage \<Rightarrow> string option" where
  "getItem k ls = map_of ls k"

definition setItem :: "string \<Rightarrow> string \<Rightarrow> storage \<Rightarrow> storage" where
  "setItem k v ls = AList.update k v ls"

definition removeItem :: "string \<Rightarrow> storage \<Rightarrow> storage" where
  "removeItem k ls = AList.delete k ls"

text \<open>
  JavaScript truthiness of a string: only the empty string is falsy. The source tests
  \<open>if (token)\<close>, \<open>if (!token)\<close>, \<open>if (userInfoRaw)\<close>, \<open>if (returnUrl)\<close> on values
  read from the store, so \<open>null\<close> and \<open>""\<close> take the same branch.
\<close>

definition truthy :: "string \<Rightarrow> bool" where
  "truthy s = (s \<noteq> [])"

section \<open>Data model of api/auth\<close>

record UserInfo =
  id_user :: string
  username :: string
  email :: string
  image_url :: "string option"
  provider :: "string option"
  created_at :: "string option"
  updated_at :: "string option"
  last_login :: "string option"
  role :: "string option"

datatype status = logged_out | pending | logged_in

record AuthStatus =
  status :: status
  is_logged_in :: bool
  user_info :: "UserInfo option"
  tokenExpired :: "bool option"

text \<open>A thrown JavaScript \<open>Error\<close>, identified by its message.\<close>

datatype error = Error string

text \<open>
  A request as handed to \<open>fetch\<close>. The body of the one request that has one
  (the Instagram connect call) is kept as the object given to \<open>JSON.stringify\<close>.
\<close>

record connect_data =
  access_token :: string
  instagram_user_id :: string
  instagram_username :: string
  expires_in :: nat

record request =
  url :: string
  http_method :: string
  headers :: "(string \<times> string) list"
  body :: "connect_data option"

text \<open>
  What \<open>await fetch(...)\<close> yields: the promise rejects with an error message, or
  resolves to a response with an HTTP status whose \<open>json()\<close> either rejects
  (\<open>Inl\<close>) or gives the parsed body (\<open>Inr\<close>).
\<close>

datatype 'b fetched = Rejects string | Response nat "string + 'b"

text \<open>The body of an auth endpoint, read at the properties the source reads.\<close>

record auth_body =
  body_token :: string
  body_user_info :: UserInfo

text \<open>A parsed URL, as \<open>window.location\<close> and \<open>new URL(...)\<close> expose it.\<close>

record URL =
  origin :: string
  pathname :: string
  search :: "(string \<times> string) list"
  hash :: string

text \<open>
  The platform the module runs on: the imported constant \<open>BASE_API_URL\<close>, the
  server behind \<open>fetch\<close>, the built-in \<open>JSON.parse\<close> (\<open>Inl\<close> when it throws) and
  \<open>JSON.stringify\<close> at type \<open>UserInfo\<close>, the translation function \<open>i18n.t\<close>, and the
  \<open>URL\<close> constructor (\<open>Inl\<close> when it throws).
\<close>

record env =
  BASE_API_URL :: string
  fetch :: "request \<Rightarrow> auth_body fetched"
  JSON_parse :: "string \<Rightarrow> error + UserInfo"
  JSON_stringify :: "UserInfo \<Rightarrow> string"
  i18n_t :: "string \<Rightarrow> string"
  new_URL :: "string \<Rightarrow> error + URL"

text \<open>
  The mutable world of the module: the store, and a log of the requests passed to
  \<open>fetch\<close>, each with the content of the store at the moment it was issued.
\<close>

record world =
  localStorage :: storage
  requests :: "(request \<times> storage) list"

definition send :: "request \<Rightarrow> 'a world_scheme \<Rightarrow> 'a world_scheme" where
  "send req w = w\<lparr>requests := requests w @ [(req, localStorage w)]\<rparr>"

section \<open>api/auth\<close>

definition ACCESS_TOKEN_KEY :: string where
  "ACCESS_TOKEN_KEY = ''prism_access_token''"

definition USER_INFO_KEY :: string where
  "USER_INFO_KEY = ''prism_user_info''"

definition getAuthEndpoint :: "env \<Rightarrow> string \<Rightarrow> string" where
  "getAuthEndpoint env path = BASE_API_URL env @ ''/api/auth'' @ path"

text \<open>Decimal rendering of a status code inside a template literal.\<close>

function show_nat :: "nat \<Rightarrow> string" where
  "show_nat n =
     (if n < 10 then [''0123456789'' ! n]
      else show_nat (n div 10) @ [''0123456789'' ! (n mod 10)])"
  by pat_completeness auto
termination
  by (relation "measure (\<lambda>n. n)") auto

definition bearer :: "string \<Rightarrow> (string \<times> string) list" where
  "bearer token = [(''Authorization'', ''Bearer '' @ token)]"

definition saveAuthData :: "env \<Rightarrow> string \<Rightarrow> UserInfo \<Rightarrow> world \<Rightarrow> world" where
  "saveAuthData env token userInfo w =
     w\<lparr>localStorage :=
          setItem USER_INFO_KEY (JSON_stringify env userInfo)
            (setItem ACCESS_TOKEN_KEY token (localStorage w))\<rparr>"

definition getAccessToken :: "'a world_scheme \<Rightarrow> string option" where
  "getAccessToken w = getItem ACCESS_TOKEN_KEY (localStorage w)"

definition clearStoredAuthData :: "world \<Rightarrow> world" where
  "clearStoredAuthData w =
     w\<lparr>localStorage :=
          removeItem USER_INFO_KEY (removeItem ACCESS_TOKEN_KEY (localStorage w))\<rparr>"

definition handleTokenExpiration :: "world \<Rightarrow> world" where
  "handleTokenExpiration w = clearStoredAuthData w"

definition refreshRequest :: "env \<Rightarrow> string \<Rightarrow> request" where
  "refreshRequest env currentToken =
     \<lparr>url = getAuthEndpoint env ''/refresh'', http_method = ''POST'',
      headers = bearer currentToken, body = None\<rparr>"

definition statusRequest :: "env \<Rightarrow> string \<Rightarrow> request" where
  "statusRequest env activeToken =
     \<lparr>url = getAuthEndpoint env ''/status'', http_method = ''GET'',
      headers = bearer activeToken, body = None\<rparr>"

definition logoutRequest :: "env \<Rightarrow> string \<Rightarrow> request" where
  "logoutRequest env token =
     \<lparr>url = getAuthEndpoint env ''/logout'', http_method = ''POST'',
      headers = bearer token, body = None\<rparr>"

text \<open>
  \<open>refreshToken\<close>: 200 gives \<open>data.token\<close>, 401 throws \<open>TOKEN_EXPIRED\<close>, any other
  status throws \<open>NETWORK_ERROR: <status>\<close>; a rejected \<open>fetch\<close> or \<open>json()\<close>
  propagates its own error.
\<close>

definition refreshToken :: "env \<Rightarrow> string \<Rightarrow> world \<Rightarrow> (error + string) \<times> world" where
  "refreshToken env currentToken w =
     (let w' = send (refreshRequest env currentToken) w in
      case fetch env (refreshRequest env currentToken) of
        Rejects m \<Rightarrow> (Inl (Error m), w')
      | Response st json \<Rightarrow>
          if st = 200 then
            (case json of
               Inl m \<Rightarrow> (Inl (Error m), w')
             | Inr data \<Rightarrow> (Inr (body_token data), w'))
          else if st = 401 then (Inl (Error ''TOKEN_EXPIRED''), w')
          else (Inl (Error (''NETWORK_ERROR: '' @ show_nat st)), w'))"

definition loggedOut :: AuthStatus where
  "loggedOut = \<lparr>status = logged_out, is_logged_in = False, user_info = None, tokenExpired = None\<rparr>"

definition loggedOutExpired :: AuthStatus where
  "loggedOutExpired =
     \<lparr>status = logged_out, is_logged_in = False, user_info = None, tokenExpired = Some True\<rparr>"

definition loggedIn :: "UserInfo \<Rightarrow> AuthStatus" where
  "loggedIn info =
     \<lparr>status = logged_in, is_logged_in = True, user_info = Some info, tokenExpired = None\<rparr>"

text \<open>
  The read of the cached identity at the head of \<open>getAuthStatus\<close>: a truthy record
  is parsed; when \<open>JSON.parse\<close> throws, the record is removed and no identity is kept.
  What \<open>JSON.parse\<close> returns is taken at the type the source casts it to
  (\<open>as UserInfo\<close>), an object, so \<open>if (cachedUser)\<close> later asks whether one was read.
\<close>

definition readCachedUser :: "env \<Rightarrow> world \<Rightarrow> UserInfo option \<times> world" where
  "readCachedUser env w =
     (case getItem USER_INFO_KEY (localStorage w) of
        None \<Rightarrow> (None, w)
      | Some userInfoRaw \<Rightarrow>
          if truthy userInfoRaw then
            (case JSON_parse env userInfoRaw of
               Inl e \<Rightarrow> (None, w\<lparr>localStorage := removeItem USER_INFO_KEY (localStorage w)\<rparr>)
             | Inr u \<Rightarrow> (Some u, w))
          else (None, w))"

text \<open>The outer \<open>catch\<close> of \<open>getAuthStatus\<close>: fall back on the cached identity.\<close>

definition fallback :: "UserInfo option \<Rightarrow> world \<Rightarrow> AuthStatus \<times> world" where
  "fallback cachedUser w =
     (case cachedUser of
        Some u \<Rightarrow> (loggedIn u, w)
      | None \<Rightarrow> (loggedOut, w))"

text \<open>
  The status request and the handling of its answer (the rest of the outer \<open>try\<close>):
  200 saves the active token with the fresh identity; 401 expires the session; a
  rejected \<open>fetch\<close>, a rejected \<open>json()\<close> or any other status lands in the \<open>catch\<close>.
\<close>

definition checkStatus :: "env \<Rightarrow> string \<Rightarrow> UserInfo option \<Rightarrow> world \<Rightarrow> AuthStatus \<times> world" where
  "checkStatus env activeToken cachedUser w =
     (let w' = send (statusRequest env activeToken) w in
      case fetch env (statusRequest env activeToken) of
        Rejects m \<Rightarrow> fallback cachedUser w'
      | Response st json \<Rightarrow>
          if st = 200 then
            (case json of
               Inl m \<Rightarrow> fallback cachedUser w'
             | Inr data \<Rightarrow>
                 (loggedIn (body_user_info data),
                  saveAuthData env activeToken (body_user_info data) w'))
          else if st = 401 then (loggedOutExpired, handleTokenExpiration w')
          else fallback cachedUser w')"

definition getAuthStatus :: "env \<Rightarrow> world \<Rightarrow> AuthStatus \<times> world" where
  "getAuthStatus env w =
     (case getAccessToken w of
        None \<Rightarrow> (loggedOut, w)
      | Some token \<Rightarrow>
          if \<not> truthy token then (loggedOut, w)
          else
            (case readCachedUser env w of
               (cachedUser, w1) \<Rightarrow>
                 (case refreshToken env token w1 of
                    (Inr refreshedToken, w2) \<Rightarrow>
                      checkStatus env refreshedToken cachedUser
                        (case cachedUser of
                           Some u \<Rightarrow> saveAuthData env refreshedToken u w2
                         | None \<Rightarrow>
                             w2\<lparr>localStorage :=
                                  setItem ACCESS_TOKEN_KEY refreshedToken (localStorage w2)\<rparr>)
                  | (Inl (Error m), w2) \<Rightarrow>
                      if m = ''TOKEN_EXPIRED'' then (loggedOutExpired, handleTokenExpiration w2)
                      else checkStatus env token cachedUser w2)))"

record logout_result =
  result_status :: string
  message :: string

text \<open>
  \<open>logout\<close>: the request is sent only for a truthy token and its outcome, resolved
  or rejected, is discarded; the store is cleared and the success record returned.
\<close>

definition logout :: "env \<Rightarrow> world \<Rightarrow> (error + logout_result) \<times> world" where
  "logout env w =
     (let w1 =
        (case getAccessToken w of
           None \<Rightarrow> w
         | Some token \<Rightarrow>
             if truthy token then
               (case fetch env (logoutRequest env token) of
                  Rejects m \<Rightarrow> send (logoutRequest env token) w
                | Response st json \<Rightarrow> send (logoutRequest env token) w)
             else w)
      in (Inr \<lparr>result_status = ''success'',
               message = i18n_t env ''common:auth.logoutSuccessMessage''\<rparr>,
          clearStoredAuthData w1))"

definition getUserProfile :: "env \<Rightarrow> world \<Rightarrow> error + UserInfo" where
  "getUserProfile env w =
     (case getItem USER_INFO_KEY (localStorage w) of
        None \<Rightarrow> Inl (Error (i18n_t env ''common:auth.notLoggedIn''))
      | Some userInfo \<Rightarrow>
          if truthy userInfo then JSON_parse env userInfo
          else Inl (Error (i18n_t env ''common:auth.notLoggedIn'')))"

section \<open>The JSON built-ins at type UserInfo\<close>

text \<open>
  \<open>JSON.stringify\<close> and \<open>JSON.parse\<close> are built-ins of the platform. This section
  defines them, after ECMAScript, for the values \<open>saveAuthData\<close> and \<open>getUserProfile\<close>
  pass through them: objects of type \<open>UserInfo\<close>, whose properties are strings.
  A string is its UTF-8 text, one \<open>char\<close> per byte.

  \<open>QuoteJSONString\<close>: the quotation mark, the backslash and the code units below
  U+0020 are escaped (backspace, tab, line feed, form feed and carriage return by
  their two-character escapes, the others as a u-escape with four lower-case
  hexadecimal digits); every other byte is copied.
\<close>

definition hex_digit :: "nat \<Rightarrow> char" where
  "hex_digit n = ''0123456789abcdef'' ! n"

definition escape_char :: "char \<Rightarrow> string" where
  "escape_char c =
     (if c = CHR 0x08 then [CHR 0x5C, CHR ''b'']
      else if c = CHR 0x09 then [CHR 0x5C, CHR ''t'']
      else if c = CHR 0x0A then [CHR 0x5C, CHR ''n'']
      else if c = CHR 0x0C then [CHR 0x5C, CHR ''f'']
      else if c = CHR 0x0D then [CHR 0x5C, CHR ''r'']
      else if c = CHR 0x22 then [CHR 0x5C, CHR 0x22]
      else if c = CHR 0x5C then [CHR 0x5C, CHR 0x5C]
      else if (of_char c :: nat) < 32 then
        [CHR 0x5C, CHR ''u'', CHR ''0'', CHR ''0'',
         hex_digit (of_char c div 16), hex_digit (of_char c mod 16)]
      else [c])"

definition QuoteJSONString :: "string \<Rightarrow> string" where
  "QuoteJSONString s = CHR 0x22 # concat (map escape_char s) @ [CHR 0x22]"

text \<open>
  \<open>JSON.stringify\<close> of a \<open>UserInfo\<close> object: its properties in order, those whose
  value is \<open>undefined\<close> left out, each as \<open>"key":"value"\<close>, separated by commas,
  in braces, with no white space.
\<close>

definition properties :: "UserInfo \<Rightarrow> (string \<times> string option) list" where
  "properties u =
     [(''id'', Some (id_user u)), (''username'', Some (username u)), (''email'', Some (email u)),
      (''image_url'', image_url u), (''provider'', provider u), (''created_at'', created_at u),
      (''updated_at'', updated_at u), (''last_login'', last_login u), (''role'', role u)]"

fun defined :: "(string \<times> string option) list \<Rightarrow> (string \<times> string) list" where
  "defined [] = []"
| "defined ((k, None) # ps) = defined ps"
| "defined ((k, Some v) # ps) = (k, v) # defined ps"

definition member_text :: "string \<times> string \<Rightarrow> string" where
  "member_text m = QuoteJSONString (fst m) @ '':'' @ QuoteJSONString (snd m)"

fun join_members :: "(string \<times> string) list \<Rightarrow> string" where
  "join_members [] = []"
| "join_members [m] = member_text m"
| "join_members (m # ms) = member_text m @ '','' @ join_members ms"

definition JSON_stringify_UserInfo :: "UserInfo \<Rightarrow> string" where
  "JSON_stringify_UserInfo u = ''{'' @ join_members (defined (properties u)) @ ''}''"

text \<open>
  \<open>JSON.parse\<close>, reading a string literal after its opening quotation mark up to
  the closing one: the escapes of the JSON grammar are decoded (a u-escape to the
  UTF-8 bytes of its code point), an unescaped code unit below U+0020 or an unknown
  escape is a syntax error (\<open>None\<close>). An escaped surrogate has no UTF-8 text and is
  refused as well.
\<close>

definition hex_value :: "char \<Rightarrow> nat option" where
  "hex_value c =
     (let n = (of_char c :: nat) in
      if 48 \<le> n \<and> n \<le> 57 then Some (n - 48)
      else if 97 \<le> n \<and> n \<le> 102 then Some (n - 87)
      else if 65 \<le> n \<and> n \<le> 70 then Some (n - 55)
      else None)"

definition simple_escape :: "char \<Rightarrow> char option" where
  "simple_escape e =
     (if e = CHR 0x22 then Some (CHR 0x22)
      else if e = CHR 0x5C then Some (CHR 0x5C)
      else if e = CHR ''/'' then Some (CHR ''/'')
      else if e = CHR ''b'' then Some (CHR 0x08)
      else if e = CHR ''f'' then Some (CHR 0x0C)
      else if e = CHR ''n'' then Some (CHR 0x0A)
      else if e = CHR ''r'' then Some (CHR 0x0D)
      else if e = CHR ''t'' then Some (CHR 0x09)
      else None)"

definition utf8 :: "nat \<Rightarrow> string option" where
  "utf8 cp =
     (if cp < 128 then Some [char_of cp]
      else if cp < 2048 then Some [char_of (192 + cp div 64), char_of (128 + cp mod 64)]
      else if 55296 \<le> cp \<and> cp < 57344 then None
      else Some [char_of (224 + cp div 4096), char_of (128 + (cp div 64) mod 64),
                 char_of (128 + cp mod 64)])"

fun unescape :: "string \<Rightarrow> (string \<times> string) option" where
  "unescape [] = None"
| "unescape (c # cs) =
     (if c = CHR 0x22 then Some ([], cs)
      else if c = CHR 0x5C then
        (case cs of
           [] \<Rightarrow> None
         | e # cs' \<Rightarrow>
             if e = CHR ''u'' then
               (case cs' of
                  h3 # h2 # h1 # h0 # r \<Rightarrow>
                    (case (hex_value h3, hex_value h2, hex_value h1, hex_value h0) of
                       (Some x3, Some x2, Some x1, Some x0) \<Rightarrow>
                         (case utf8 (((x3 * 16 + x2) * 16 + x1) * 16 + x0) of
                            None \<Rightarrow> None
                          | Some bs \<Rightarrow>
                              map_option (\<lambda>(s, rest). (bs @ s, rest)) (unescape r))
                     | _ \<Rightarrow> None)
                | _ \<Rightarrow> None)
             else
               (case simple_escape e of
                  None \<Rightarrow> None
                | Some ch \<Rightarrow> map_option (\<lambda>(s, rest). (ch # s, rest)) (unescape cs')))
      else if (of_char c :: nat) < 32 then None
      else map_option (\<lambda>(s, rest). (c # s, rest)) (unescape cs))"

text \<open>White space of the JSON grammar: space, tab, line feed, carriage return.\<close>

definition is_ws :: "char \<Rightarrow> bool" where
  "is_ws c = (c = CHR 0x20 \<or> c = CHR 0x09 \<or> c = CHR 0x0A \<or> c = CHR 0x0D)"

definition skip_ws :: "string \<Rightarrow> string" where
  "skip_ws s = dropWhile is_ws s"

text \<open>
  One member \<open>"key" : "value"\<close> with the white space around its tokens, and the
  members of an object up to its closing brace. A member whose value is not a
  string literal is not a property of a \<open>UserInfo\<close> and is refused.
\<close>

definition parse_member :: "string \<Rightarrow> ((string \<times> string) \<times> string) option" where
  "parse_member s =
     (case skip_ws s of
        [] \<Rightarrow> None
      | q # s1 \<Rightarrow>
          if q \<noteq> CHR 0x22 then None
          else
            (case unescape s1 of
               None \<Rightarrow> None
             | Some (k, s2) \<Rightarrow>
                 (case skip_ws s2 of
                    [] \<Rightarrow> None
                  | colon # s3 \<Rightarrow>
                      if colon \<noteq> CHR '':'' then None
                      else
                        (case skip_ws s3 of
                           [] \<Rightarrow> None
                         | q' # s4 \<Rightarrow>
                             if q' \<noteq> CHR 0x22 then None
                             else
                               (case unescape s4 of
                                  None \<Rightarrow> None
                                | Some (v, s5) \<Rightarrow> Some ((k, v), skip_ws s5))))))"

function parse_members :: "string \<Rightarrow> ((string \<times> string) list \<times> string) option" where
  "parse_members s =
     (case parse_member s of
        None \<Rightarrow> None
      | Some (m, r) \<Rightarrow>
          (case r of
             [] \<Rightarrow> None
           | d # r' \<Rightarrow>
               if d = CHR ''}'' then Some ([m], r')
               else if d = CHR '','' then
                 map_option (\<lambda>(ms, rest). (m # ms, rest)) (parse_members r')
               else None))"
  by pat_completeness auto
termination
proof (relation "measure length")
  show "wf (measure length)" by simp
next
  fix s x2 x y x22 x21
  assume a: "parse_member s = Some x2" "(x, y) = x2" "y = x21 # x22"
  have str: "length r < length z" if "unescape z = Some (t, r)" for z t r
    using that
  proof (induction z arbitrary: t r rule: unescape.induct)
    case 1
    then show ?case by simp
  next
    case (2 c cs)
    then show ?case
      by (fastforce split: if_splits list.splits option.splits)
  qed
  have ws: "length (skip_ws z) \<le> length z" for z
    by (simp add: skip_ws_def length_dropWhile_le)
  have tok: "length zs < length z" if "skip_ws z = c # zs" for z c zs
    using ws [of z] that by simp
  from a obtain q s1 k s2 colon s3 q' s4 v s5 where
    b: "skip_ws s = q # s1" "unescape s1 = Some (k, s2)" "skip_ws s2 = colon # s3"
       "skip_ws s3 = q' # s4" "unescape s4 = Some (v, s5)" "y = skip_ws s5"
    by (auto simp: parse_member_def split: list.splits if_splits option.splits)
  have "length y \<le> length s5" using b(6) ws by simp
  also have "\<dots> < length s4" using b(5) by (rule str)
  also have "\<dots> < length s3" using b(4) by (rule tok)
  also have "\<dots> < length s2" using b(3) by (rule tok)
  also have "\<dots> < length s1" using b(2) by (rule str)
  also have "\<dots> < length s" using b(1) by (rule tok)
  finally show "(x22, s) \<in> measure length" using a(3) by simp
qed

text \<open>
  The parsed object read at type \<open>UserInfo\<close>, as the source's cast does: each
  property is the last member of that name. An object without \<open>id\<close>, \<open>username\<close>
  or \<open>email\<close> is not a \<open>UserInfo\<close>; a result of type \<open>UserInfo\<close> cannot hold it,
  and it is reported as an error.
\<close>

definition as_UserInfo :: "(string \<times> string) list \<Rightarrow> error + UserInfo" where
  "as_UserInfo ms =
     (let get = map_of (rev ms) in
      case (get ''id'', get ''username'', get ''email'') of
        (Some i, Some n, Some e) \<Rightarrow>
          Inr \<lparr>id_user = i, username = n, email = e, image_url = get ''image_url'',
               provider = get ''provider'', created_at = get ''created_at'',
               updated_at = get ''updated_at'', last_login = get ''last_login'',
               role = get ''role''\<rparr>
      | _ \<Rightarrow> Inl (Error ''TypeError''))"

definition JSON_parse_UserInfo :: "string \<Rightarrow> error + UserInfo" where
  "JSON_parse_UserInfo s =
     (case skip_ws s of
        [] \<Rightarrow> Inl (Error ''SyntaxError'')
      | c # s1 \<Rightarrow>
          if c \<noteq> CHR ''{'' then Inl (Error ''SyntaxError'')
          else
            (case parse_members s1 of
               None \<Rightarrow> Inl (Error ''SyntaxError'')
             | Some (ms, rest) \<Rightarrow>
                 if skip_ws rest = [] then as_UserInfo ms else Inl (Error ''SyntaxError'')))"

text \<open>A platform whose \<open>JSON\<close> is the one defined above.\<close>

definition with_JSON :: "env \<Rightarrow> env" where
  "with_JSON env =
     env\<lparr>JSON_parse := JSON_parse_UserInfo, JSON_stringify := JSON_stringify_UserInfo\<rparr>"

section \<open>api/instagram\<close>

record InstagramStatusResponse =
  response_status :: string
  connected :: bool
  valid :: bool
  response_username :: "string option"

text \<open>
  The body of an Instagram endpoint: its \<open>detail\<close> property (read on errors) and
  the body as an \<open>InstagramStatusResponse\<close> (read on success).
\<close>

record ig_body =
  detail :: "string option"
  status_data :: InstagramStatusResponse

definition ok :: "nat \<Rightarrow> bool" where
  "ok st = (200 \<le> st \<and> st \<le> 299)"

text \<open>
  \<open>authenticatedFetch\<close>: \<open>Content-Type\<close>, then the caller's headers, then the bearer
  header when the stored token is truthy; the request is passed to \<open>fetch\<close>.
\<close>

definition authenticatedFetch ::
  "string \<Rightarrow> string \<Rightarrow> (string \<times> string) list \<Rightarrow> connect_data option \<Rightarrow>
   'a world_scheme \<Rightarrow> 'a world_scheme" where
  "authenticatedFetch u m hs b w =
     (let headers0 = fold (\<lambda>(k, v). AList.update k v) hs [(''Content-Type'', ''application/json'')];
          headers1 =
            (case getAccessToken w of
               None \<Rightarrow> headers0
             | Some token \<Rightarrow>
                 if truthy token then AList.update ''Authorization'' (''Bearer '' @ token) headers0
                 else headers0)
      in send \<lparr>url = u, http_method = m, headers = headers1, body = b\<rparr> w)"

text \<open>
  An API call is split at its \<open>await\<close>: the part that issues the request, and the
  function from what the request yields to what the call resolves to or throws.
\<close>

definition thrown_detail :: "ig_body \<Rightarrow> string \<Rightarrow> error" where
  "thrown_detail b dflt =
     Error (case detail b of
              None \<Rightarrow> dflt
            | Some d \<Rightarrow> if truthy d then d else dflt)"

definition connectInstagram_send :: "connect_data \<Rightarrow> 'a world_scheme \<Rightarrow> 'a world_scheme" where
  "connectInstagram_send data w =
     authenticatedFetch ''/api/instagram/connect'' ''POST''
       [(''Content-Type'', ''application/json'')] (Some data) w"

definition connectInstagram_result :: "ig_body fetched \<Rightarrow> error + ig_body" where
  "connectInstagram_result r =
     (case r of
        Rejects m \<Rightarrow> Inl (Error m)
      | Response st json \<Rightarrow>
          if \<not> ok st then
            (case json of
               Inl m \<Rightarrow> Inl (Error m)
             | Inr b \<Rightarrow> Inl (thrown_detail b ''Failed to connect Instagram account''))
          else
            (case json of
               Inl m \<Rightarrow> Inl (Error m)
             | Inr b \<Rightarrow> Inr b))"

definition getInstagramStatus_send :: "'a world_scheme \<Rightarrow> 'a world_scheme" where
  "getInstagramStatus_send w = authenticatedFetch ''/api/instagram/status'' ''GET'' [] None w"

definition getInstagramStatus_result :: "ig_body fetched \<Rightarrow> error + InstagramStatusResponse" where
  "getInstagramStatus_result r =
     (case r of
        Rejects m \<Rightarrow> Inl (Error m)
      | Response st json \<Rightarrow>
          if \<not> ok st then
            (case json of
               Inl m \<Rightarrow> Inl (Error m)
             | Inr b \<Rightarrow> Inl (thrown_detail b ''Failed to get Instagram status''))
          else
            (case json of
               Inl m \<Rightarrow> Inl (Error m)
             | Inr b \<Rightarrow> Inr (status_data b)))"

section \<open>InstagramConnectDialog\<close>

datatype toast = Toast_success string | Toast_error string

record props =
  open_prop :: bool
  isAuthLoading :: bool
  authStatus :: AuthStatus

text \<open>
  One loaded page: the store and the request log, \<open>window.location\<close>, a navigation
  started by assigning \<open>window.location.href\<close>, the component's ref and state, and
  the toasts shown.
\<close>

record page = world +
  location :: URL
  navigation :: "URL option"
  processedRef :: bool
  connecting :: bool
  loading :: bool
  status_state :: "InstagramStatusResponse option"
  toasts :: "toast list"

text \<open>Where an asynchronous call of the component is suspended.\<close>

datatype pending = AwaitConnect | AwaitLoadStatus | AwaitStatus

text \<open>\<open>window.history.replaceState({}, '', window.location.pathname)\<close>.\<close>

definition replaceState_pathname :: "page \<Rightarrow> page" where
  "replaceState_pathname p = p\<lparr>location := (location p)\<lparr>search := [], hash := []\<rparr>\<rparr>"

definition loadStatus_begin :: "page \<Rightarrow> page" where
  "loadStatus_begin p = getInstagramStatus_send (p\<lparr>loading := True\<rparr>)"

definition loadStatus_end :: "ig_body fetched \<Rightarrow> page \<Rightarrow> page" where
  "loadStatus_end r p =
     (case getInstagramStatus_result r of
        Inr statusData \<Rightarrow> p\<lparr>status_state := Some statusData, loading := False\<rparr>
      | Inl e \<Rightarrow>
          p\<lparr>status_state :=
               Some \<lparr>response_status = ''error'', connected = False, valid = False,
                     response_username = None\<rparr>,
             loading := False\<rparr>)"

text \<open>
  \<open>handleOAuthCallback\<close> up to its first \<open>await\<close>. The two session gates come
  first; on a success marker the guard \<open>processedRef\<close> is consulted, and with all
  three parameters truthy it is set, \<open>connecting\<close> is raised and the connect
  request is issued, all before the call suspends.
\<close>

definition handleOAuthCallback :: "props \<Rightarrow> page \<Rightarrow> page \<times> pending option" where
  "handleOAuthCallback props p =
     (if isAuthLoading props then (p, None)
      else if \<not> is_logged_in (authStatus props) then (p, None)
      else
        (let urlParams = search (location p);
             authResult = map_of urlParams ''instagram_auth''
         in
           if authResult = Some ''success'' then
             (if processedRef p then (p, None)
              else
                (case (map_of urlParams ''token'', map_of urlParams ''user_id'',
                       map_of urlParams ''username'') of
                   (Some token, Some userId, Some username') \<Rightarrow>
                     if truthy token \<and> truthy userId \<and> truthy username' then
                       (connectInstagram_send
                          \<lparr>access_token = token, instagram_user_id = userId,
                           instagram_username = username', expires_in = 5184000\<rparr>
                          (p\<lparr>processedRef := True, connecting := True\<rparr>),
                        Some AwaitConnect)
                     else (p, None)
                 | _ \<Rightarrow> (p, None)))
           else if authResult = Some ''error'' then
             (replaceState_pathname
                (p\<lparr>toasts := toasts p @
                     [Toast_error
                        (''Instagram connection failed: '' @
                         (case map_of urlParams ''error'' of
                            None \<Rightarrow> ''Unknown error''
                          | Some e \<Rightarrow> if truthy e then e else ''Unknown error''))]\<rparr>),
              None)
           else (p, None)))"

text \<open>The \<open>catch\<close> and \<open>finally\<close> of \<open>handleOAuthCallback\<close>.\<close>

definition connect_failed :: "error \<Rightarrow> page \<Rightarrow> page" where
  "connect_failed e p =
     (case e of
        Error m \<Rightarrow>
          p\<lparr>toasts := toasts p @ [Toast_error (''Failed to connect: Error: '' @ m)],
            processedRef := False, connecting := False\<rparr>)"

text \<open>
  Resumption when the connect call settles: a failure runs the \<open>catch\<close>; a success
  shows the toast and starts \<open>loadStatus\<close>, at whose \<open>await\<close> the call suspends again.
\<close>

definition handleOAuthCallback_afterConnect ::
  "ig_body fetched \<Rightarrow> page \<Rightarrow> page \<times> pending option" where
  "handleOAuthCallback_afterConnect r p =
     (case connectInstagram_result r of
        Inl e \<Rightarrow> (connect_failed e p, None)
      | Inr b \<Rightarrow>
          (loadStatus_begin
             (p\<lparr>toasts := toasts p @
                  [Toast_success ''Instagram account connected successfully!'']\<rparr>),
           Some AwaitLoadStatus))"

text \<open>
  Resumption when \<open>loadStatus\<close> has finished (it catches its own errors): the return
  location is read; a truthy one is removed and parsed, and a different pathname
  starts a navigation to it; otherwise the query is stripped in place. A throwing
  \<open>URL\<close> constructor lands in the \<open>catch\<close>.
\<close>

definition handleOAuthCallback_afterLoadStatus :: "env \<Rightarrow> ig_body fetched \<Rightarrow> page \<Rightarrow> page" where
  "handleOAuthCallback_afterLoadStatus env r p0 =
     (let p = loadStatus_end r p0 in
      case getItem ''instagram_return_url'' (localStorage p) of
        None \<Rightarrow> (replaceState_pathname p)\<lparr>connecting := False\<rparr>
      | Some returnUrl \<Rightarrow>
          if truthy returnUrl then
            (let p1 = p\<lparr>localStorage := removeItem ''instagram_return_url'' (localStorage p)\<rparr> in
             case new_URL env returnUrl of
               Inl e \<Rightarrow> connect_failed e p1
             | Inr returnUrlObj \<Rightarrow>
                 if pathname returnUrlObj \<noteq> pathname (location p1) then
                   p1\<lparr>navigation := Some returnUrlObj, connecting := False\<rparr>
                 else (replaceState_pathname p1)\<lparr>connecting := False\<rparr>)
          else (replaceState_pathname p)\<lparr>connecting := False\<rparr>)"

text \<open>
  The effect of the component and its dependency list \<open>[open, isAuthLoading, authStatus]\<close>:
  after a render the effect runs again when a dependency has changed.
\<close>

definition effect :: "props \<Rightarrow> page \<Rightarrow> page \<times> pending list" where
  "effect props p =
     (if open_prop props then
        (case handleOAuthCallback props p of
           (p1, t) \<Rightarrow>
             if \<not> isAuthLoading props \<and> is_logged_in (authStatus props) then
               (loadStatus_begin p1, (case t of None \<Rightarrow> [] | Some a \<Rightarrow> [a]) @ [AwaitStatus])
             else (p1, (case t of None \<Rightarrow> [] | Some a \<Rightarrow> [a])))
      else (p, []))"

definition effect_deps :: "props \<Rightarrow> bool \<times> bool \<times> AuthStatus" where
  "effect_deps props = (open_prop props, isAuthLoading props, authStatus props)"

definition rerender :: "props \<Rightarrow> props \<Rightarrow> page \<Rightarrow> page \<times> pending list" where
  "rerender prev next p =
     (if effect_deps next = effect_deps prev then (p, []) else effect next p)"

text \<open>The exchange requests among the requests a page has issued.\<close>

definition exchanges :: "page \<Rightarrow> request list" where
  "exchanges p = filter (\<lambda>r. url r = ''/api/instagram/connect'') (map fst (requests p))"

section \<open>Example scenarios\<close>

text \<open>
  A concrete platform, store and page on which the theorems below are instantiated.
  The example \<open>JSON\<close> codec knows one identity record and its serialisation.
\<close>

definition demo_user :: UserInfo where
  "demo_user =
     \<lparr>id_user = ''u1'', username = ''ada'', email = ''ada@example.org'', image_url = None,
      provider = None, created_at = None, updated_at = None, last_login = None,
      role = Some ''admin''\<rparr>"

definition demo_json :: string where
  "demo_json = ''{id:u1,username:ada,email:ada@example.org,role:admin}''"

definition canvas_url :: "(string \<times> string) list \<Rightarrow> URL" where
  "canvas_url q =
     \<lparr>origin = ''https://app.example.org'', pathname = ''/canvas/7'', search = q, hash = []\<rparr>"

definition demo_new_URL :: "string \<Rightarrow> error + URL" where
  "demo_new_URL s =
     (if s = ''https://app.example.org/canvas/7'' then Inr (canvas_url [])
      else if s = ''https://app.example.org/canvas/7?instagram_auth=success''
        then Inr (canvas_url [(''instagram_auth'', ''success'')])
      else Inl (Error ''Invalid URL''))"

definition demo_env :: "(request \<Rightarrow> auth_body fetched) \<Rightarrow> env" where
  "demo_env server =
     \<lparr>BASE_API_URL = ''https://api.example.org'', fetch = server,
      JSON_parse = (\<lambda>s. if s = demo_json then Inr demo_user else Inl (Error ''SyntaxError'')),
      JSON_stringify = (\<lambda>u. if u = demo_user then demo_json else ''{}''),
      i18n_t = (\<lambda>key. key),
      new_URL = demo_new_URL\<rparr>"

definition demo_world :: "string \<Rightarrow> world" where
  "demo_world cached =
     \<lparr>localStorage = [(''prism_access_token'', ''tok-1''), (''prism_user_info'', cached)],
      requests = []\<rparr>"

text \<open>A server that answers every request with 401.\<close>

definition server_expired :: "request \<Rightarrow> auth_body fetched" where
  "server_expired r = Response 401 (Inl ''Unauthorized'')"

text \<open>A server that answers the refresh with 503 and is unreachable otherwise.\<close>

definition server_down :: "request \<Rightarrow> auth_body fetched" where
  "server_down r =
     (if url r = ''https://api.example.org/api/auth/refresh'' then Response 503 (Inl ''Bad body'')
      else Rejects ''Failed to fetch'')"

definition callback_location :: URL where
  "callback_location =
     \<lparr>origin = ''https://app.example.org'', pathname = ''/'',
      search = [(''instagram_auth'', ''success''), (''token'', ''IGQ''), (''user_id'', ''1789''),
                (''username'', ''ada.codes'')],
      hash = []\<rparr>"

definition demo_page :: "string \<Rightarrow> page" where
  "demo_page returnUrl =
     \<lparr>localStorage = [(''prism_access_token'', ''tok-1''), (''instagram_return_url'', returnUrl)],
      requests = [], location = callback_location, navigation = None, processedRef = False,
      connecting = False, loading = False, status_state = None, toasts = []\<rparr>"

definition props_loading :: props where
  "props_loading = \<lparr>open_prop = True, isAuthLoading = True, authStatus = loggedOut\<rparr>"

definition props_ready :: props where
  "props_ready = \<lparr>open_prop = True, isAuthLoading = False, authStatus = loggedIn demo_user\<rparr>"

definition demo_data :: connect_data where
  "demo_data =
     \<lparr>access_token = ''IGQ'', instagram_user_id = ''1789'', instagram_username = ''ada.codes'',
      expires_in = 5184000\<rparr>"

definition connect_ok :: "ig_body fetched" where
  "connect_ok =
     Response 200
       (Inr \<lparr>detail = None,
             status_data = \<lparr>response_status = ''success'', connected = True, valid = True,
                            response_username = Some ''ada.codes''\<rparr>\<rparr>)"

text \<open>An identity whose fields need escaping: a quotation mark, a backslash, a line feed, a bell.\<close>

definition escaped_user :: UserInfo where
  "escaped_user =
     \<lparr>id_user = ''u2'', username = [CHR ''a'', CHR 0x22, CHR 0x5C, CHR ''b''],
      email = [CHR ''x'', CHR 0x0A, CHR 0x07], image_url = Some [], provider = None,
      created_at = None, updated_at = Some ''2024-05-01'', last_login = None, role = None\<rparr>"

section \<open>Facts about the store and the auth module\<close>

lemma getItem_setItem:
  "getItem k (setItem k' v ls) = (if k = k' then Some v else getItem k ls)"
  by (simp add: getItem_def setItem_def update_conv')

lemma getItem_removeItem:
  "getItem k (removeItem k' ls) = (if k = k' then None else getItem k ls)"
  by (simp add: getItem_def removeItem_def delete_conv')

lemma keys_distinct: "ACCESS_TOKEN_KEY \<noteq> USER_INFO_KEY" "USER_INFO_KEY \<noteq> ACCESS_TOKEN_KEY"
  by (simp_all add: ACCESS_TOKEN_KEY_def USER_INFO_KEY_def)

lemma refreshToken_snd: "snd (refreshToken env t w) = send (refreshRequest env t) w"
  by (simp add: refreshToken_def Let_def split: fetched.splits sum.splits)

lemma refreshToken_fst: "fst (refreshToken env t w) = fst (refreshToken env t w')"
  by (simp add: refreshToken_def Let_def split: fetched.splits sum.splits)

lemma readCachedUser_requests: "requests (snd (readCachedUser env w)) = requests w"
  by (simp add: readCachedUser_def split: option.splits sum.splits)

lemma readCachedUser_token:
  "getItem ACCESS_TOKEN_KEY (localStorage (snd (readCachedUser env w))) = getItem ACCESS_TOKEN_KEY (localStorage w)"
  by (simp add: readCachedUser_def getItem_removeItem keys_distinct split: option.splits sum.splits)

lemma fallback_requests: "snd (fallback c w) = w"
  by (simp add: fallback_def split: option.splits)

lemma checkStatus_requests:
  "requests (snd (checkStatus env a c w)) = requests w @ [(statusRequest env a, localStorage w)]"
  by (simp add: checkStatus_def Let_def send_def fallback_def saveAuthData_def
      handleTokenExpiration_def clearStoredAuthData_def
      split: fetched.splits sum.splits option.splits)

lemma checkStatus_transient:
  assumes "\<forall>json. fetch env (statusRequest env a) \<noteq> Response 200 json"
    and "\<forall>json. fetch env (statusRequest env a) \<noteq> Response 401 json"
  shows "checkStatus env a c w = fallback c (send (statusRequest env a) w)"
  using assms by (simp add: checkStatus_def Let_def split: fetched.splits sum.splits)

lemma refresh_down:
  "fst (refreshToken (demo_env server_down) ''tok-1'' w) = Inl (Error (''NETWORK_ERROR: '' @ show_nat 503))"
  by (simp add: refreshToken_def Let_def demo_env_def server_down_def refreshRequest_def
      getAuthEndpoint_def)

section \<open>Session manager\<close>

text \<open>
  Claim C1. When the store holds a token and the refresh request is answered with
  HTTP 401 (\<open>TOKEN_EXPIRED\<close>), \<open>getAuthStatus\<close> returns \<open>logged_out\<close> with
  \<open>is_logged_in = false\<close> and \<open>tokenExpired = true\<close>, and afterwards the store holds
  neither the session token nor the cached identity.
\<close>

theorem getAuthStatus_refresh_expired:
  assumes "getAccessToken w = Some token" and "truthy token"
    and "fetch env (refreshRequest env token) = Response 401 json"
  shows "fst (getAuthStatus env w) =
           \<lparr>status = logged_out, is_logged_in = False, user_info = None, tokenExpired = Some True\<rparr>
         \<and> getItem ACCESS_TOKEN_KEY (localStorage (snd (getAuthStatus env w))) = None
         \<and> getItem USER_INFO_KEY (localStorage (snd (getAuthStatus env w))) = None"
  using assms
  by (simp add: getAuthStatus_def refreshToken_def Let_def loggedOutExpired_def
      handleTokenExpiration_def clearStoredAuthData_def getItem_removeItem send_def
      split: prod.splits)

theorem getAuthStatus_refresh_expired_witness:
  "getAccessToken (demo_world demo_json) = Some ''tok-1'' \<and> truthy ''tok-1''
   \<and> fetch (demo_env server_expired) (refreshRequest (demo_env server_expired) ''tok-1'')
       = Response 401 (Inl ''Unauthorized'')
   \<and> fst (getAuthStatus (demo_env server_expired) (demo_world demo_json)) =
       \<lparr>status = logged_out, is_logged_in = False, user_info = None, tokenExpired = Some True\<rparr>
   \<and> getItem ACCESS_TOKEN_KEY
        (localStorage (snd (getAuthStatus (demo_env server_expired) (demo_world demo_json)))) = None
   \<and> getItem USER_INFO_KEY
        (localStorage (snd (getAuthStatus (demo_env server_expired) (demo_world demo_json)))) = None"
proof -
  have h1: "getAccessToken (demo_world demo_json) = Some ''tok-1''"
    by (simp add: getAccessToken_def getItem_def demo_world_def ACCESS_TOKEN_KEY_def)
  have h2: "truthy ''tok-1''" by (simp add: truthy_def)
  have h3: "fetch (demo_env server_expired) (refreshRequest (demo_env server_expired) ''tok-1'')
       = Response 401 (Inl ''Unauthorized'')"
    by (simp add: demo_env_def server_expired_def)
  show ?thesis using h1 h2 h3 getAuthStatus_refresh_expired [OF h1 h2 h3] by simp
qed

text \<open>
  Claim C3. When the status request is issued and yields neither 200 nor 401 (any
  other status, or a rejected \<open>fetch\<close>): with a cached identity the call returns
  \<open>logged_in\<close> carrying that identity and no key of the store is removed; without
  one it returns \<open>logged_out\<close> with \<open>tokenExpired\<close> unset.
\<close>

theorem getAuthStatus_status_unavailable:
  assumes "getAccessToken w = Some token" and "truthy token"
    and "fst (refreshToken env token w) \<noteq> Inl (Error ''TOKEN_EXPIRED'')"
    and "activeToken = (case fst (refreshToken env token w) of Inr r \<Rightarrow> r | Inl e \<Rightarrow> token)"
    and "\<forall>json. fetch env (statusRequest env activeToken) \<noteq> Response 200 json"
    and "\<forall>json. fetch env (statusRequest env activeToken) \<noteq> Response 401 json"
  shows "case fst (readCachedUser env w) of
           Some u \<Rightarrow>
             fst (getAuthStatus env w) =
               \<lparr>status = logged_in, is_logged_in = True, user_info = Some u, tokenExpired = None\<rparr>
             \<and> (\<forall>k. getItem k (localStorage w) \<noteq> None \<longrightarrow>
                    getItem k (localStorage (snd (getAuthStatus env w))) \<noteq> None)
         | None \<Rightarrow>
             fst (getAuthStatus env w) =
               \<lparr>status = logged_out, is_logged_in = False, user_info = None, tokenExpired = None\<rparr>"
proof -
  obtain c w1 where r: "readCachedUser env w = (c, w1)" by (cases "readCachedUser env w")
  have f: "fst (refreshToken env token w1) = fst (refreshToken env token w)"
    by (rule refreshToken_fst)
  have s: "snd (refreshToken env token w1) = send (refreshRequest env token) w1"
    by (rule refreshToken_snd)
  have keep: "c \<noteq> None \<Longrightarrow> w1 = w"
    using r by (auto simp: readCachedUser_def split: option.splits sum.splits if_splits)
  show ?thesis
  proof (cases "fst (refreshToken env token w)")
    case (Inl e)
    obtain m where e: "e = Error m" by (cases e)
    have m: "m \<noteq> ''TOKEN_EXPIRED''" using assms(3) Inl e by simp
    have rt: "refreshToken env token w1 = (Inl (Error m), send (refreshRequest env token) w1)"
      using f s Inl e by (cases "refreshToken env token w1") simp
    have a: "activeToken = token" using assms(4) Inl by simp
    have g: "getAuthStatus env w = fallback c (send (statusRequest env token) (send (refreshRequest env token) w1))"
      using assms(1,2) r rt m checkStatus_transient [OF assms(5,6)] a
      by (simp add: getAuthStatus_def)
    show ?thesis
      using g r keep
      by (auto simp: fallback_def loggedIn_def loggedOut_def send_def split: option.splits)
  next
    case (Inr t)
    have rt: "refreshToken env token w1 = (Inr t, send (refreshRequest env token) w1)"
      using f s Inr by (cases "refreshToken env token w1") simp
    have a: "activeToken = t" using assms(4) Inr by simp
    show ?thesis
      using assms(1,2) r rt keep checkStatus_transient [OF assms(5,6)] a
      by (auto simp: getAuthStatus_def fallback_def loggedIn_def loggedOut_def send_def
          saveAuthData_def getItem_setItem split: option.splits)
  qed
qed

theorem getAuthStatus_status_unavailable_witness:
  "fst (readCachedUser (demo_env server_down) (demo_world demo_json)) = Some demo_user
   \<and> fst (getAuthStatus (demo_env server_down) (demo_world demo_json)) =
       \<lparr>status = logged_in, is_logged_in = True, user_info = Some demo_user, tokenExpired = None\<rparr>
   \<and> localStorage (snd (getAuthStatus (demo_env server_down) (demo_world demo_json))) =
       localStorage (demo_world demo_json)
   \<and> fst (readCachedUser (demo_env server_down) (demo_world [])) = None
   \<and> fst (getAuthStatus (demo_env server_down) (demo_world [])) =
       \<lparr>status = logged_out, is_logged_in = False, user_info = None, tokenExpired = None\<rparr>"
proof -
  let ?env = "demo_env server_down"
  have h1: "getAccessToken (demo_world c) = Some ''tok-1''" for c
    by (simp add: getAccessToken_def getItem_def demo_world_def ACCESS_TOKEN_KEY_def)
  have h2: "truthy ''tok-1''" by (simp add: truthy_def)
  have h3: "fst (refreshToken ?env ''tok-1'' (demo_world c)) \<noteq> Inl (Error ''TOKEN_EXPIRED'')" for c
    by (simp add: refresh_down)
  have h4: "''tok-1'' = (case fst (refreshToken ?env ''tok-1'' (demo_world c)) of Inr r \<Rightarrow> r | Inl e \<Rightarrow> ''tok-1'')" for c
    by (simp add: refresh_down)
  have h5: "\<forall>json. fetch ?env (statusRequest ?env ''tok-1'') \<noteq> Response 200 json"
    by (simp add: demo_env_def server_down_def statusRequest_def getAuthEndpoint_def)
  have h6: "\<forall>json. fetch ?env (statusRequest ?env ''tok-1'') \<noteq> Response 401 json"
    by (simp add: demo_env_def server_down_def statusRequest_def getAuthEndpoint_def)
  have r1: "readCachedUser ?env (demo_world demo_json) = (Some demo_user, demo_world demo_json)"
    by (simp add: readCachedUser_def getItem_def demo_world_def USER_INFO_KEY_def truthy_def
        demo_env_def demo_json_def)
  have r2: "readCachedUser ?env (demo_world []) = (None, demo_world [])"
    by (simp add: readCachedUser_def getItem_def demo_world_def USER_INFO_KEY_def truthy_def)
  have st: "localStorage (snd (getAuthStatus ?env (demo_world demo_json))) = localStorage (demo_world demo_json)"
    using h1 [of demo_json] h2 r1 h5 h6
    by (simp add: getAuthStatus_def refreshToken_def Let_def demo_env_def server_down_def
      refreshRequest_def getAuthEndpoint_def checkStatus_def statusRequest_def fallback_def send_def)
  show ?thesis
    using getAuthStatus_status_unavailable [OF h1 h2 h3 h4 h5 h6, of demo_json] getAuthStatus_status_unavailable [OF h1 h2 h3 h4 h5 h6, of "[]"] r1 r2 st
    by simp
qed

text \<open>
  Claim C4. Every \<open>logout\<close> call resolves with the success record and leaves the
  store without the session token and without the cached identity, whatever the
  logout request yields, a rejected \<open>fetch\<close> included.
\<close>

theorem logout_always_clears:
  "fst (logout env w) =
     Inr \<lparr>result_status = ''success'', message = i18n_t env ''common:auth.logoutSuccessMessage''\<rparr>
   \<and> getItem ACCESS_TOKEN_KEY (localStorage (snd (logout env w))) = None
   \<and> getItem USER_INFO_KEY (localStorage (snd (logout env w))) = None"
  by (simp add: logout_def Let_def clearStoredAuthData_def getItem_removeItem)

theorem logout_always_clears_witness:
  "fetch (demo_env server_down) (logoutRequest (demo_env server_down) ''tok-1'')
     = Rejects ''Failed to fetch''
   \<and> fst (logout (demo_env server_down) (demo_world demo_json)) =
       Inr \<lparr>result_status = ''success'', message = ''common:auth.logoutSuccessMessage''\<rparr>
   \<and> getItem ACCESS_TOKEN_KEY
        (localStorage (snd (logout (demo_env server_down) (demo_world demo_json)))) = None
   \<and> getItem USER_INFO_KEY
        (localStorage (snd (logout (demo_env server_down) (demo_world demo_json)))) = None"
  using logout_always_clears [of "demo_env server_down" "demo_world demo_json"]
  by (simp add: demo_env_def server_down_def logoutRequest_def getAuthEndpoint_def)

text \<open>
  Claim C6. When the refresh fails with an error other than \<open>TOKEN_EXPIRED\<close>, the
  status request follows the refresh request with the store unchanged in between
  (still holding the token) and carries the original token as its bearer.
\<close>

theorem getAuthStatus_refresh_failure_keeps_token:
  assumes "getAccessToken w = Some token" and "truthy token"
    and "fst (refreshToken env token w) = Inl (Error m)" and "m \<noteq> ''TOKEN_EXPIRED''"
  shows "requests (snd (getAuthStatus env w)) =
           requests w @
             [(refreshRequest env token, localStorage (snd (readCachedUser env w))),
              (statusRequest env token, localStorage (snd (readCachedUser env w)))]
         \<and> getItem ACCESS_TOKEN_KEY (localStorage (snd (readCachedUser env w))) = Some token"
proof -
  obtain c w1 where r: "readCachedUser env w = (c, w1)" by (cases "readCachedUser env w")
  have f: "fst (refreshToken env token w1) = Inl (Error m)"
    using assms(3) refreshToken_fst [of env token w1 w] by simp
  have s: "snd (refreshToken env token w1) = send (refreshRequest env token) w1"
    by (rule refreshToken_snd)
  have rt: "refreshToken env token w1 = (Inl (Error m), send (refreshRequest env token) w1)"
    using f s by (cases "refreshToken env token w1") simp
  have g: "getAuthStatus env w = checkStatus env token c (send (refreshRequest env token) w1)"
    using assms(1,2,4) r rt by (simp add: getAuthStatus_def)
  have q: "requests w1 = requests w"
    using readCachedUser_requests [of env w] r by simp
  have t: "getItem ACCESS_TOKEN_KEY (localStorage w1) = Some token"
    using readCachedUser_token [of env w] r assms(1) by (simp add: getAccessToken_def)
  show ?thesis
    using g q t r by (simp add: checkStatus_requests send_def)
qed

theorem getAuthStatus_refresh_failure_keeps_token_witness:
  "getAccessToken (demo_world demo_json) = Some ''tok-1'' \<and> truthy ''tok-1''
   \<and> fst (refreshToken (demo_env server_down) ''tok-1'' (demo_world demo_json)) =
       Inl (Error (''NETWORK_ERROR: '' @ show_nat 503))
   \<and> ''NETWORK_ERROR: '' @ show_nat 503 \<noteq> ''TOKEN_EXPIRED''
   \<and> requests (snd (getAuthStatus (demo_env server_down) (demo_world demo_json))) =
       [(refreshRequest (demo_env server_down) ''tok-1'', localStorage (demo_world demo_json)),
        (statusRequest (demo_env server_down) ''tok-1'', localStorage (demo_world demo_json))]"
proof -
  have h1: "getAccessToken (demo_world demo_json) = Some ''tok-1''"
    by (simp add: getAccessToken_def getItem_def demo_world_def ACCESS_TOKEN_KEY_def)
  have h2: "truthy ''tok-1''" by (simp add: truthy_def)
  have h3: "fst (refreshToken (demo_env server_down) ''tok-1'' (demo_world demo_json)) =
       Inl (Error (''NETWORK_ERROR: '' @ show_nat 503))"
    by (rule refresh_down)
  have h4: "''NETWORK_ERROR: '' @ show_nat 503 \<noteq> ''TOKEN_EXPIRED''" by simp
  have r: "readCachedUser (demo_env server_down) (demo_world demo_json) = (Some demo_user, demo_world demo_json)"
    by (simp add: readCachedUser_def getItem_def demo_world_def USER_INFO_KEY_def truthy_def
        demo_env_def demo_json_def)
  show ?thesis using h1 h2 h3 h4 r getAuthStatus_refresh_failure_keeps_token [OF h1 h2 h3 h4] by (simp add: demo_world_def)
qed

subsection \<open>The JSON round trip\<close>

text \<open>
  Parsing undoes serialising: first for one string literal, then for the members
  of an object, then for the record read off the members.
\<close>

declare parse_members.simps [simp del]

lemma hex_value_hex_digit: "n < 16 \<Longrightarrow> hex_value (hex_digit n) = Some n"
proof -
  assume "n < 16"
  then have "n \<in> set [0..<16]" by simp
  moreover have "\<forall>k \<in> set [0..<16]. hex_value (hex_digit k) = Some k"
    by code_simp
  ultimately show ?thesis by blast
qed

lemma unescape_escape_char:
  assumes "unescape r = Some (s, rest)"
  shows "unescape (escape_char c @ r) = Some (c # s, rest)"
proof -
  let ?n = "of_char c :: nat"
  consider (special) "c \<in> {CHR 0x08, CHR 0x09, CHR 0x0A, CHR 0x0C, CHR 0x0D, CHR 0x22, CHR 0x5C}"
    | (control) "c \<notin> {CHR 0x08, CHR 0x09, CHR 0x0A, CHR 0x0C, CHR 0x0D, CHR 0x22, CHR 0x5C}" "?n < 32"
    | (plain) "c \<notin> {CHR 0x08, CHR 0x09, CHR 0x0A, CHR 0x0C, CHR 0x0D, CHR 0x22, CHR 0x5C}" "\<not> ?n < 32"
    by blast
  then show ?thesis
  proof cases
    case special
    then show ?thesis using assms by (auto simp: escape_char_def simple_escape_def)
  next
    case control
    have d: "?n div 16 < 16" "?n mod 16 < 16" using control(2) by simp_all
    have z: "hex_value CHR ''0'' = Some 0" by (simp add: hex_value_def)
    have cp: "((0 * 16 + 0) * 16 + ?n div 16) * 16 + ?n mod 16 = ?n" by simp
    have u: "utf8 ?n = Some [c]" using control(2) by (simp add: utf8_def)
    show ?thesis
      using control assms z hex_value_hex_digit [OF d(1)] hex_value_hex_digit [OF d(2)] u
      by (simp add: escape_char_def cp)
  next
    case plain
    then show ?thesis using assms by (simp add: escape_char_def)
  qed
qed

lemma unescape_escaped:
  "unescape (concat (map escape_char s) @ CHR 0x22 # rest) = Some (s, rest)"
  by (induction s) (simp_all add: unescape_escape_char)

lemma skip_ws_token: "\<not> is_ws c \<Longrightarrow> skip_ws (c # cs) = c # cs"
  by (simp add: skip_ws_def)

lemma parse_member_text:
  assumes "\<not> is_ws d"
  shows "parse_member (member_text (k, v) @ d # rest) = Some ((k, v), d # rest)"
proof -
  have q: "\<not> is_ws (CHR 0x22)" "\<not> is_ws CHR '':''" by (simp_all add: is_ws_def)
  have t: "member_text (k, v) @ d # rest =
      CHR 0x22 # (concat (map escape_char k) @ CHR 0x22 #
        (CHR '':'' # CHR 0x22 # (concat (map escape_char v) @ CHR 0x22 # (d # rest))))"
    by (simp add: member_text_def QuoteJSONString_def)
  show ?thesis
    unfolding t parse_member_def
    by (simp add: skip_ws_token q assms unescape_escaped)
qed

lemma parse_members_join:
  "ms \<noteq> [] \<Longrightarrow> parse_members (join_members ms @ CHR ''}'' # rest) = Some (ms, rest)"
proof (induction ms rule: join_members.induct)
  case 1
  then show ?case by simp
next
  case (2 m)
  have "parse_member (member_text m @ CHR ''}'' # rest) = Some (m, CHR ''}'' # rest)"
    using parse_member_text [of "CHR ''}''" "fst m" "snd m" rest] by (simp add: is_ws_def)
  then show ?case by (simp add: parse_members.simps [of "member_text m @ CHR ''}'' # rest"])
next
  case (3 m m' ms)
  let ?tail = "join_members (m' # ms) @ CHR ''}'' # rest"
  have "parse_member (member_text m @ CHR '','' # ?tail) = Some (m, CHR '','' # ?tail)"
    using parse_member_text [of "CHR '',''" "fst m" "snd m" ?tail] by (simp add: is_ws_def)
  moreover have "parse_members ?tail = Some (m' # ms, rest)" using 3 by simp
  ultimately show ?case
    by (simp add: parse_members.simps [of "member_text m @ CHR '','' # ?tail"])
qed

lemma defined_keys: "set (map fst (defined ps)) \<subseteq> set (map fst ps)"
  by (induction ps rule: defined.induct) auto

lemma defined_distinct: "distinct (map fst ps) \<Longrightarrow> distinct (map fst (defined ps))"
  using defined_keys by (induction ps rule: defined.induct) auto

lemma map_of_defined:
  "distinct (map fst ps) \<Longrightarrow>
   map_of (defined ps) k = (case map_of ps k of Some (Some v) \<Rightarrow> Some v | _ \<Rightarrow> None)"
proof (induction ps rule: defined.induct)
  case 1
  then show ?case by simp
next
  case (2 k' ps)
  then show ?case
    by (auto simp: map_of_eq_None_iff image_iff split: option.splits)
next
  case (3 k' v ps)
  then show ?case by auto
qed

lemma map_of_rev_distinct: "distinct (map fst xs) \<Longrightarrow> map_of (rev xs) = map_of xs"
  by (rule map_of_inject_set [THEN iffD2]) (simp_all add: rev_map [symmetric])

lemma properties_distinct: "distinct (map fst (properties u))"
  by (simp add: properties_def)

lemma as_UserInfo_properties: "as_UserInfo (defined (properties u)) = Inr u"
proof -
  have g: "map_of (rev (defined (properties u))) k =
      (case map_of (properties u) k of Some (Some v) \<Rightarrow> Some v | _ \<Rightarrow> None)" for k
    using map_of_rev_distinct [OF defined_distinct [OF properties_distinct]]
      map_of_defined [OF properties_distinct] by simp
  have p: "map_of (properties u) ''id'' = Some (Some (id_user u))"
    "map_of (properties u) ''username'' = Some (Some (username u))"
    "map_of (properties u) ''email'' = Some (Some (email u))"
    "map_of (properties u) ''image_url'' = Some (image_url u)"
    "map_of (properties u) ''provider'' = Some (provider u)"
    "map_of (properties u) ''created_at'' = Some (created_at u)"
    "map_of (properties u) ''updated_at'' = Some (updated_at u)"
    "map_of (properties u) ''last_login'' = Some (last_login u)"
    "map_of (properties u) ''role'' = Some (role u)"
    by (simp_all add: properties_def)
  have o: "(case x of None \<Rightarrow> None | Some v \<Rightarrow> Some v) = x" for x :: "string option"
    by (cases x) simp_all
  show ?thesis
    by (simp add: as_UserInfo_def Let_def g p o)
qed

lemma defined_properties_nonempty: "defined (properties u) \<noteq> []"
  by (simp add: properties_def)

lemma JSON_roundtrip: "JSON_parse_UserInfo (JSON_stringify_UserInfo u) = Inr u"
proof -
  have "parse_members (join_members (defined (properties u)) @ CHR ''}'' # []) =
      Some (defined (properties u), [])"
    using defined_properties_nonempty by (rule parse_members_join)
  then show ?thesis
    by (simp add: JSON_parse_UserInfo_def JSON_stringify_UserInfo_def skip_ws_token is_ws_def
        as_UserInfo_properties) (simp add: skip_ws_def)
qed

lemma JSON_stringify_truthy: "truthy (JSON_stringify_UserInfo u)"
  by (simp add: truthy_def JSON_stringify_UserInfo_def)

text \<open>
  Claim C9. For every token \<open>t\<close> and every user record \<open>u\<close>, \<open>saveAuthData t u\<close>
  followed by reading both keys gives back exactly \<open>t\<close> from \<open>getAccessToken\<close> and
  exactly \<open>u\<close> from \<open>getUserProfile\<close>, which parses the stored record: the stored
  text is \<open>JSON.stringify u\<close>, and \<open>JSON.parse\<close> recovers \<open>u\<close> from it.
\<close>

theorem saveAuthData_roundtrip:
  "getAccessToken (saveAuthData (with_JSON env) t u w) = Some t
   \<and> getItem USER_INFO_KEY (localStorage (saveAuthData (with_JSON env) t u w))
       = Some (JSON_stringify_UserInfo u)
   \<and> getUserProfile (with_JSON env) (saveAuthData (with_JSON env) t u w) = Inr u"
proof -
  have stored: "getItem USER_INFO_KEY (localStorage (saveAuthData (with_JSON env) t u w))
       = Some (JSON_stringify_UserInfo u)"
    by (simp add: saveAuthData_def getItem_setItem with_JSON_def)
  have token: "getAccessToken (saveAuthData (with_JSON env) t u w) = Some t"
    by (simp add: getAccessToken_def saveAuthData_def getItem_setItem keys_distinct)
  have "getUserProfile (with_JSON env) (saveAuthData (with_JSON env) t u w)
       = JSON_parse_UserInfo (JSON_stringify_UserInfo u)"
    using stored JSON_stringify_truthy [of u] by (simp add: getUserProfile_def with_JSON_def)
  then have profile: "getUserProfile (with_JSON env) (saveAuthData (with_JSON env) t u w) = Inr u"
    by (simp add: JSON_roundtrip)
  show ?thesis using token stored profile by simp
qed

theorem saveAuthData_roundtrip_witness:
  "QuoteJSONString (username escaped_user)
     = [CHR 0x22, CHR ''a'', CHR 0x5C, CHR 0x22, CHR 0x5C, CHR 0x5C, CHR ''b'', CHR 0x22]
   \<and> QuoteJSONString (email escaped_user)
     = [CHR 0x22, CHR ''x'', CHR 0x5C, CHR ''n'', CHR 0x5C, CHR ''u'', CHR ''0'', CHR ''0'',
        CHR ''0'', CHR ''7'', CHR 0x22]
   \<and> getAccessToken
        (saveAuthData (with_JSON (demo_env server_down)) [] escaped_user (demo_world ''stale''))
       = Some []
   \<and> getUserProfile (with_JSON (demo_env server_down))
        (saveAuthData (with_JSON (demo_env server_down)) [] escaped_user (demo_world ''stale''))
       = Inr escaped_user"
proof -
  have q1: "QuoteJSONString (username escaped_user)
     = [CHR 0x22, CHR ''a'', CHR 0x5C, CHR 0x22, CHR 0x5C, CHR 0x5C, CHR ''b'', CHR 0x22]"
    by (simp add: QuoteJSONString_def escaped_user_def escape_char_def)
  have q2: "QuoteJSONString (email escaped_user)
     = [CHR 0x22, CHR ''x'', CHR 0x5C, CHR ''n'', CHR 0x5C, CHR ''u'', CHR ''0'', CHR ''0'',
        CHR ''0'', CHR ''7'', CHR 0x22]"
    by (simp add: QuoteJSONString_def escaped_user_def escape_char_def hex_digit_def)
  show ?thesis
    using q1 q2
      saveAuthData_roundtrip [of "demo_env server_down" "[]" escaped_user "demo_world ''stale''"]
    by simp
qed

text \<open>
  Claim C10. When the cached-identity record is read and fails to parse,
  \<open>getAuthStatus\<close> removes it before the refresh request is issued and runs exactly
  as it does on the store without the record; so with a transient failure of the
  status request it returns \<open>logged_out\<close> and the record is gone.
\<close>

theorem getAuthStatus_corrupt_cache:
  assumes "getAccessToken w = Some token" and "truthy token"
    and "getItem USER_INFO_KEY (localStorage w) = Some raw" and "truthy raw"
    and "JSON_parse env raw = Inl e"
  shows "getAuthStatus env w =
           getAuthStatus env (w\<lparr>localStorage := removeItem USER_INFO_KEY (localStorage w)\<rparr>)
       \<and> (\<exists>rest. requests (snd (getAuthStatus env w)) =
             requests w @
               (refreshRequest env token, removeItem USER_INFO_KEY (localStorage w)) # rest)
       \<and> (fst (refreshToken env token w) \<noteq> Inl (Error ''TOKEN_EXPIRED'')
            \<and> (\<forall>json. fetch env (statusRequest env
                  (case fst (refreshToken env token w) of Inr r \<Rightarrow> r | Inl x \<Rightarrow> token))
                  \<noteq> Response 200 json)
            \<and> (\<forall>json. fetch env (statusRequest env
                  (case fst (refreshToken env token w) of Inr r \<Rightarrow> r | Inl x \<Rightarrow> token))
                  \<noteq> Response 401 json)
          \<longrightarrow> fst (getAuthStatus env w) =
                \<lparr>status = logged_out, is_logged_in = False, user_info = None, tokenExpired = None\<rparr>
              \<and> getItem USER_INFO_KEY (localStorage (snd (getAuthStatus env w))) = None)"
proof -
  let ?w' = "w\<lparr>localStorage := removeItem USER_INFO_KEY (localStorage w)\<rparr>"
  have r: "readCachedUser env w = (None, ?w')"
    using assms(3,4,5) by (simp add: readCachedUser_def)
  have r': "readCachedUser env ?w' = (None, ?w')"
    by (simp add: readCachedUser_def getItem_removeItem)
  have tk: "getAccessToken ?w' = Some token"
    using assms(1) by (simp add: getAccessToken_def getItem_removeItem keys_distinct)
  have same: "getAuthStatus env w = getAuthStatus env ?w'"
    using assms(1,2) tk r r' by (simp add: getAuthStatus_def)
  have f: "fst (refreshToken env token ?w') = fst (refreshToken env token w)"
    by (rule refreshToken_fst)
  have s: "snd (refreshToken env token ?w') = send (refreshRequest env token) ?w'"
    by (rule refreshToken_snd)
  let ?sent = "send (refreshRequest env token) ?w'"
  have log: "\<exists>rest. requests (snd (getAuthStatus env w)) =
             requests w @ (refreshRequest env token, removeItem USER_INFO_KEY (localStorage w)) # rest"
  proof (cases "fst (refreshToken env token w)")
    case (Inl x)
    obtain m where x: "x = Error m" by (cases x)
    have rt: "refreshToken env token ?w' = (Inl (Error m), ?sent)"
      using f s Inl x by (cases "refreshToken env token ?w'") simp
    show ?thesis
      using assms(1,2) r rt
      by (simp add: getAuthStatus_def checkStatus_requests send_def
          handleTokenExpiration_def clearStoredAuthData_def)
  next
    case (Inr t)
    have rt: "refreshToken env token ?w' = (Inr t, ?sent)"
      using f s Inr by (cases "refreshToken env token ?w'") simp
    show ?thesis
      using assms(1,2) r rt
      by (simp add: getAuthStatus_def checkStatus_requests send_def)
  qed
  have transient: "fst (getAuthStatus env w) = loggedOut
        \<and> getItem USER_INFO_KEY (localStorage (snd (getAuthStatus env w))) = None"
    if ne: "fst (refreshToken env token w) \<noteq> Inl (Error ''TOKEN_EXPIRED'')"
      and n200: "\<forall>json. fetch env (statusRequest env
                  (case fst (refreshToken env token w) of Inr r \<Rightarrow> r | Inl x \<Rightarrow> token))
                  \<noteq> Response 200 json"
      and n401: "\<forall>json. fetch env (statusRequest env
                  (case fst (refreshToken env token w) of Inr r \<Rightarrow> r | Inl x \<Rightarrow> token))
                  \<noteq> Response 401 json"
  proof (cases "fst (refreshToken env token w)")
    case (Inl x)
    obtain m where x: "x = Error m" by (cases x)
    have m: "m \<noteq> ''TOKEN_EXPIRED''" using ne Inl x by simp
    have rt: "refreshToken env token ?w' = (Inl (Error m), ?sent)"
      using f s Inl x by (cases "refreshToken env token ?w'") simp
    have c: "checkStatus env token None ?sent = fallback None (send (statusRequest env token) ?sent)"
      using n200 n401 Inl by (intro checkStatus_transient) simp_all
    show ?thesis
      using assms(1,2) r rt m c
      by (simp add: getAuthStatus_def fallback_def send_def getItem_removeItem)
  next
    case (Inr t)
    have rt: "refreshToken env token ?w' = (Inr t, ?sent)"
      using f s Inr by (cases "refreshToken env token ?w'") simp
    let ?w3 = "?sent\<lparr>localStorage := setItem ACCESS_TOKEN_KEY t (localStorage ?sent)\<rparr>"
    have c: "checkStatus env t None ?w3 = fallback None (send (statusRequest env t) ?w3)"
      using n200 n401 Inr by (intro checkStatus_transient) simp_all
    show ?thesis
      using assms(1,2) r rt c
      by (simp add: getAuthStatus_def fallback_def send_def getItem_removeItem getItem_setItem
          keys_distinct)
  qed
  show ?thesis
    using same log transient by (simp add: loggedOut_def)
qed

theorem getAuthStatus_corrupt_cache_witness:
  "getItem USER_INFO_KEY (localStorage (demo_world ''{broken'')) = Some ''{broken''
   \<and> JSON_parse (demo_env server_down) ''{broken'' = Inl (Error ''SyntaxError'')
   \<and> fst (getAuthStatus (demo_env server_down) (demo_world ''{broken'')) =
       \<lparr>status = logged_out, is_logged_in = False, user_info = None, tokenExpired = None\<rparr>
   \<and> getItem USER_INFO_KEY
        (localStorage (snd (getAuthStatus (demo_env server_down) (demo_world ''{broken'')))) = None"
proof -
  let ?env = "demo_env server_down"
  let ?w = "demo_world ''{broken''"
  have h1: "getAccessToken ?w = Some ''tok-1''"
    by (simp add: getAccessToken_def getItem_def demo_world_def ACCESS_TOKEN_KEY_def)
  have h2: "truthy ''tok-1''" by (simp add: truthy_def)
  have h3: "getItem USER_INFO_KEY (localStorage ?w) = Some ''{broken''"
    by (simp add: getItem_def demo_world_def USER_INFO_KEY_def)
  have h4: "truthy ''{broken''" by (simp add: truthy_def)
  have h5: "JSON_parse ?env ''{broken'' = Inl (Error ''SyntaxError'')"
    by (simp add: demo_env_def demo_json_def)
  have t1: "fst (refreshToken ?env ''tok-1'' ?w) \<noteq> Inl (Error ''TOKEN_EXPIRED'')"
    by (simp add: refresh_down)
  have t2: "\<forall>json. fetch ?env (statusRequest ?env ''tok-1'') \<noteq> Response 200 json"
    by (simp add: demo_env_def server_down_def statusRequest_def getAuthEndpoint_def)
  have t3: "\<forall>json. fetch ?env (statusRequest ?env ''tok-1'') \<noteq> Response 401 json"
    by (simp add: demo_env_def server_down_def statusRequest_def getAuthEndpoint_def)
  show ?thesis
    using h3 h5 t1 t2 t3 conjunct2 [OF conjunct2 [OF getAuthStatus_corrupt_cache [OF h1 h2 h3 h4 h5]]]
    by (simp add: refresh_down)
qed

section \<open>Facts about the connect dialog\<close>

lemma exchanges_send:
  "exchanges (send req p) = exchanges p @ (if url req = ''/api/instagram/connect'' then [req] else [])"
  by (simp add: exchanges_def send_def)

lemma authenticatedFetch_send:
  "\<exists>hs'. authenticatedFetch u m hs b w = send \<lparr>url = u, http_method = m, headers = hs', body = b\<rparr> w"
  unfolding authenticatedFetch_def Let_def by blast

lemma connectInstagram_send_page:
  "\<exists>req. url req = ''/api/instagram/connect'' \<and> body req = Some data
     \<and> connectInstagram_send data p = send req p"
proof -
  obtain hs' where "authenticatedFetch ''/api/instagram/connect'' ''POST''
       [(''Content-Type'', ''application/json'')] (Some data) p
     = send \<lparr>url = ''/api/instagram/connect'', http_method = ''POST'', headers = hs', body = Some data\<rparr> p"
    using authenticatedFetch_send by blast
  then show ?thesis
    by (intro exI [of _ "\<lparr>url = ''/api/instagram/connect'', http_method = ''POST'', headers = hs', body = Some data\<rparr>"])
       (simp add: connectInstagram_send_def)
qed

lemma send_fields:
  "processedRef (send req p) = processedRef p" "location (send req p) = location p"
  "localStorage (send req p) = localStorage p" "toasts (send req p) = toasts p"
  "navigation (send req p) = navigation p" "connecting (send req p) = connecting p"
  by (simp_all add: send_def)

lemma handleOAuthCallback_fires:
  assumes "\<not> isAuthLoading props" and "is_logged_in (authStatus props)"
    and "map_of (search (location p)) ''instagram_auth'' = Some ''success''"
    and "map_of (search (location p)) ''token'' = Some tk" and "truthy tk"
    and "map_of (search (location p)) ''user_id'' = Some uid" and "truthy uid"
    and "map_of (search (location p)) ''username'' = Some un" and "truthy un"
    and "\<not> processedRef p"
  shows "handleOAuthCallback props p =
           (connectInstagram_send
              \<lparr>access_token = tk, instagram_user_id = uid, instagram_username = un,
               expires_in = 5184000\<rparr>
              (p\<lparr>processedRef := True, connecting := True\<rparr>),
            Some AwaitConnect)"
  using assms by (simp add: handleOAuthCallback_def Let_def)

lemma handleOAuthCallback_guarded:
  assumes "map_of (search (location p)) ''instagram_auth'' = Some ''success''"
    and "processedRef p"
  shows "handleOAuthCallback props p = (p, None)"
  using assms by (simp add: handleOAuthCallback_def Let_def)

lemma connect_failed_fields:
  "processedRef (connect_failed e p) = False" "location (connect_failed e p) = location p"
  "requests (connect_failed e p) = requests p" "localStorage (connect_failed e p) = localStorage p"
  by (cases e; simp add: connect_failed_def)+

lemma loadStatus_begin_send:
  "\<exists>req. url req = ''/api/instagram/status'' \<and> loadStatus_begin p = send req (p\<lparr>loading := True\<rparr>)"
proof -
  obtain hs' where "authenticatedFetch ''/api/instagram/status'' ''GET'' [] None (p\<lparr>loading := True\<rparr>)
     = send \<lparr>url = ''/api/instagram/status'', http_method = ''GET'', headers = hs', body = None\<rparr>
         (p\<lparr>loading := True\<rparr>)"
    using authenticatedFetch_send by blast
  then show ?thesis
    by (intro exI [of _ "\<lparr>url = ''/api/instagram/status'', http_method = ''GET'', headers = hs', body = None\<rparr>"])
       (simp add: loadStatus_begin_def getInstagramStatus_send_def)
qed

lemma loadStatus_begin_fields:
  "exchanges (loadStatus_begin p) = exchanges p" "processedRef (loadStatus_begin p) = processedRef p"
proof -
  obtain req where "url req = ''/api/instagram/status''"
    "loadStatus_begin p = send req (p\<lparr>loading := True\<rparr>)"
    using loadStatus_begin_send by blast
  then show "exchanges (loadStatus_begin p) = exchanges p"
    "processedRef (loadStatus_begin p) = processedRef p"
    by (simp_all add: exchanges_send send_fields) (simp add: exchanges_def)
qed

lemma handleOAuthCallback_deferred:
  assumes "isAuthLoading props \<or> \<not> is_logged_in (authStatus props)"
  shows "handleOAuthCallback props p = (p, None)"
  using assms by (auto simp: handleOAuthCallback_def)

lemma demo_ready:
  "\<not> isAuthLoading props_ready" "is_logged_in (authStatus props_ready)"
  by (simp_all add: props_ready_def loggedIn_def)

lemma demo_callback:
  "map_of (search (location (demo_page s))) ''instagram_auth'' = Some ''success''"
  "map_of (search (location (demo_page s))) ''token'' = Some ''IGQ''" "truthy ''IGQ''"
  "map_of (search (location (demo_page s))) ''user_id'' = Some ''1789''" "truthy ''1789''"
  "map_of (search (location (demo_page s))) ''username'' = Some ''ada.codes''" "truthy ''ada.codes''"
  "\<not> processedRef (demo_page s)"
  by (simp_all add: demo_page_def callback_location_def truthy_def)

lemma demo_exchanges: "exchanges (demo_page s) = []"
  by (simp add: exchanges_def demo_page_def)

section \<open>OAuth callback processor\<close>

text \<open>
  Claim C2. On a page whose location carries the success marker and all three
  exchange parameters, with the session settled as logged in and the guard unset,
  two invocations of \<open>handleOAuthCallback\<close> in immediate succession (the second
  while the first is suspended at its \<open>await\<close>, under any props) issue exactly one
  connect request: the first sets the guard before it suspends and the second
  returns with the page unchanged.
\<close>

theorem callback_twice_one_exchange:
  assumes "\<not> isAuthLoading props" and "is_logged_in (authStatus props)"
    and "map_of (search (location p)) ''instagram_auth'' = Some ''success''"
    and "map_of (search (location p)) ''token'' = Some tk" and "truthy tk"
    and "map_of (search (location p)) ''user_id'' = Some uid" and "truthy uid"
    and "map_of (search (location p)) ''username'' = Some un" and "truthy un"
    and "\<not> processedRef p"
  shows "let first = handleOAuthCallback props p;
             second = handleOAuthCallback props' (fst first)
         in snd first = Some AwaitConnect \<and> processedRef (fst first)
          \<and> second = (fst first, None)
          \<and> (\<exists>req. body req =
                      Some \<lparr>access_token = tk, instagram_user_id = uid,
                            instagram_username = un, expires_in = 5184000\<rparr>
                  \<and> exchanges (fst second) = exchanges p @ [req])"
proof -
  let ?data = "\<lparr>access_token = tk, instagram_user_id = uid, instagram_username = un,
               expires_in = 5184000\<rparr>"
  let ?armed = "p\<lparr>processedRef := True, connecting := True\<rparr>"
  obtain req where req: "url req = ''/api/instagram/connect''" "body req = Some ?data"
    "connectInstagram_send ?data ?armed = send req ?armed"
    using connectInstagram_send_page [of ?data ?armed] by blast
  have first: "handleOAuthCallback props p = (send req ?armed, Some AwaitConnect)"
    using handleOAuthCallback_fires [OF assms] req(3) by simp
  have second: "handleOAuthCallback props' (send req ?armed) = (send req ?armed, None)"
    using assms(3) by (intro handleOAuthCallback_guarded) (simp_all add: send_fields)
  have ex: "exchanges (send req ?armed) = exchanges p @ [req]"
    using req(1) by (simp add: exchanges_send) (simp add: exchanges_def)
  show ?thesis
    using first second ex req(2) by (auto simp: Let_def send_fields)
qed

theorem callback_twice_one_exchange_witness:
  "\<not> isAuthLoading props_ready \<and> is_logged_in (authStatus props_ready)
   \<and> \<not> processedRef (demo_page [])
   \<and> snd (handleOAuthCallback props_ready (demo_page [])) = Some AwaitConnect
   \<and> handleOAuthCallback props_ready (fst (handleOAuthCallback props_ready (demo_page [])))
       = (fst (handleOAuthCallback props_ready (demo_page [])), None)
   \<and> map body
        (exchanges (fst (handleOAuthCallback props_ready
                          (fst (handleOAuthCallback props_ready (demo_page []))))))
       = [Some demo_data]"
  using callback_twice_one_exchange [OF demo_ready demo_callback, of "[]" props_ready] demo_ready demo_callback
  by (auto simp: Let_def demo_exchanges demo_data_def)

text \<open>
  Claim C5. When the connect call fails, the guard is reset and the location is
  left as it was, so the next invocation of \<open>handleOAuthCallback\<close> on that page
  issues a new connect request with the same parameters.
\<close>

theorem failed_exchange_resets_guard:
  assumes "\<not> isAuthLoading props" and "is_logged_in (authStatus props)"
    and "map_of (search (location p)) ''instagram_auth'' = Some ''success''"
    and "map_of (search (location p)) ''token'' = Some tk" and "truthy tk"
    and "map_of (search (location p)) ''user_id'' = Some uid" and "truthy uid"
    and "map_of (search (location p)) ''username'' = Some un" and "truthy un"
    and "\<not> processedRef p"
    and "connectInstagram_result r = Inl e"
  shows "let first = handleOAuthCallback props p;
             failed = handleOAuthCallback_afterConnect r (fst first);
             retry = handleOAuthCallback props (fst failed)
         in snd failed = None \<and> \<not> processedRef (fst failed)
          \<and> location (fst failed) = location p
          \<and> snd retry = Some AwaitConnect
          \<and> (\<exists>req1 req2. exchanges (fst failed) = exchanges p @ [req1]
                \<and> exchanges (fst retry) = exchanges p @ [req1, req2]
                \<and> body req1 = body req2
                \<and> body req2 =
                      Some \<lparr>access_token = tk, instagram_user_id = uid,
                            instagram_username = un, expires_in = 5184000\<rparr>)"
proof -
  let ?data = "\<lparr>access_token = tk, instagram_user_id = uid, instagram_username = un,
               expires_in = 5184000\<rparr>"
  let ?armed = "p\<lparr>processedRef := True, connecting := True\<rparr>"
  obtain req1 where req1: "url req1 = ''/api/instagram/connect''"
    "connectInstagram_send ?data ?armed = send req1 ?armed" "body req1 = Some ?data"
    using connectInstagram_send_page [of ?data ?armed] by blast
  have first: "handleOAuthCallback props p = (send req1 ?armed, Some AwaitConnect)"
    using handleOAuthCallback_fires [OF assms(1-10)] req1(2) by simp
  let ?f = "connect_failed e (send req1 ?armed)"
  have failed: "handleOAuthCallback_afterConnect r (send req1 ?armed) = (?f, None)"
    using assms(11) by (simp add: handleOAuthCallback_afterConnect_def)
  have ex1: "exchanges ?f = exchanges p @ [req1]"
    using req1(1) by (simp add: exchanges_def connect_failed_fields send_def)
  let ?again = "?f\<lparr>processedRef := True, connecting := True\<rparr>"
  obtain req2 where req2: "url req2 = ''/api/instagram/connect''" "body req2 = Some ?data"
    "connectInstagram_send ?data ?again = send req2 ?again"
    using connectInstagram_send_page [of ?data ?again] by blast
  have loc: "location ?f = location p"
    by (simp add: connect_failed_fields send_fields)
  have retry: "handleOAuthCallback props ?f = (send req2 ?again, Some AwaitConnect)"
    using handleOAuthCallback_fires [of props ?f tk uid un] assms(1-9) loc req2(3)
    by (simp add: connect_failed_fields)
  have ex2: "exchanges (send req2 ?again) = exchanges p @ [req1, req2]"
    using req2(1) ex1 by (simp add: exchanges_send) (simp add: exchanges_def)
  show ?thesis
    using first failed retry ex1 ex2 req1(3) req2(2) loc
    by (auto simp: Let_def connect_failed_fields)
qed

theorem failed_exchange_resets_guard_witness:
  "connectInstagram_result (Rejects ''Failed to fetch'') = Inl (Error ''Failed to fetch'')
   \<and> \<not> processedRef
         (fst (handleOAuthCallback_afterConnect (Rejects ''Failed to fetch'')
                (fst (handleOAuthCallback props_ready (demo_page [])))))
   \<and> map body
        (exchanges
          (fst (handleOAuthCallback props_ready
                 (fst (handleOAuthCallback_afterConnect (Rejects ''Failed to fetch'')
                        (fst (handleOAuthCallback props_ready (demo_page []))))))))
       = [Some demo_data, Some demo_data]"
proof -
  have h: "connectInstagram_result (Rejects ''Failed to fetch'') = Inl (Error ''Failed to fetch'')"
    by (simp add: connectInstagram_result_def)
  show ?thesis
    using h failed_exchange_resets_guard [OF demo_ready demo_callback h, of "[]"]
    by (auto simp: Let_def demo_exchanges demo_data_def)
qed

text \<open>
  Claim C7. While the session is loading or not logged in, \<open>handleOAuthCallback\<close>
  returns with the page unchanged: no guard set, no request issued. When the props
  later settle as logged in, the dependency list has changed, the effect runs
  again, and on a pending success redirect it sets the guard and issues the
  connect request.
\<close>

theorem callback_deferred_until_logged_in:
  assumes "isAuthLoading prev \<or> \<not> is_logged_in (authStatus prev)"
  shows "handleOAuthCallback prev p = (p, None)
       \<and> effect prev p = (p, [])
       \<and> (\<not> isAuthLoading cur \<and> is_logged_in (authStatus cur) \<and> open_prop cur
            \<and> map_of (search (location p)) ''instagram_auth'' = Some ''success''
            \<and> map_of (search (location p)) ''token'' = Some tk \<and> truthy tk
            \<and> map_of (search (location p)) ''user_id'' = Some uid \<and> truthy uid
            \<and> map_of (search (location p)) ''username'' = Some un \<and> truthy un
            \<and> \<not> processedRef p
          \<longrightarrow> rerender prev cur (fst (handleOAuthCallback prev p)) = effect cur p
              \<and> snd (effect cur p) = [AwaitConnect, AwaitStatus]
              \<and> processedRef (fst (effect cur p))
              \<and> (\<exists>req. body req =
                          Some \<lparr>access_token = tk, instagram_user_id = uid,
                                instagram_username = un, expires_in = 5184000\<rparr>
                      \<and> exchanges (fst (effect cur p)) = exchanges p @ [req]))"
proof -
  have d: "handleOAuthCallback prev p = (p, None)"
    using assms by (rule handleOAuthCallback_deferred)
  have e: "effect prev p = (p, [])"
    using assms d by (auto simp: effect_def)
  have r: "rerender prev cur p = effect cur p
              \<and> snd (effect cur p) = [AwaitConnect, AwaitStatus]
              \<and> processedRef (fst (effect cur p))
              \<and> (\<exists>req. body req =
                          Some \<lparr>access_token = tk, instagram_user_id = uid,
                                instagram_username = un, expires_in = 5184000\<rparr>
                      \<and> exchanges (fst (effect cur p)) = exchanges p @ [req])"
    if s: "\<not> isAuthLoading cur" "is_logged_in (authStatus cur)" "open_prop cur"
      and c: "map_of (search (location p)) ''instagram_auth'' = Some ''success''"
        "map_of (search (location p)) ''token'' = Some tk" "truthy tk"
        "map_of (search (location p)) ''user_id'' = Some uid" "truthy uid"
        "map_of (search (location p)) ''username'' = Some un" "truthy un"
        "\<not> processedRef p"
  proof -
    let ?data = "\<lparr>access_token = tk, instagram_user_id = uid, instagram_username = un,
                 expires_in = 5184000\<rparr>"
    let ?armed = "p\<lparr>processedRef := True, connecting := True\<rparr>"
    obtain req where req: "url req = ''/api/instagram/connect''" "body req = Some ?data"
      "connectInstagram_send ?data ?armed = send req ?armed"
      using connectInstagram_send_page [of ?data ?armed] by blast
    have first: "handleOAuthCallback cur p = (send req ?armed, Some AwaitConnect)"
      using handleOAuthCallback_fires [OF s(1,2) c] req(3) by simp
    have eff: "effect cur p = (loadStatus_begin (send req ?armed), [AwaitConnect, AwaitStatus])"
      using s first by (simp add: effect_def)
    have changed: "effect_deps cur \<noteq> effect_deps prev"
      using assms s by (auto simp: effect_deps_def)
    have ex: "exchanges (send req ?armed) = exchanges p @ [req]"
      using req(1) by (simp add: exchanges_send) (simp add: exchanges_def)
    show ?thesis
      using eff changed ex req(2)
      by (auto simp: rerender_def loadStatus_begin_fields send_fields)
  qed
  show ?thesis using d e r by simp
qed

theorem callback_deferred_until_logged_in_witness:
  "isAuthLoading props_loading
   \<and> handleOAuthCallback props_loading (demo_page []) = (demo_page [], None)
   \<and> rerender props_loading props_ready (fst (handleOAuthCallback props_loading (demo_page [])))
       = effect props_ready (demo_page [])
   \<and> processedRef (fst (effect props_ready (demo_page [])))
   \<and> map body (exchanges (fst (effect props_ready (demo_page [])))) = [Some demo_data]"
proof -
  have h: "isAuthLoading props_loading \<or> \<not> is_logged_in (authStatus props_loading)"
    by (simp add: props_loading_def)
  have o: "open_prop props_ready" "isAuthLoading props_loading"
    by (simp_all add: props_ready_def props_loading_def)
  show ?thesis
    using callback_deferred_until_logged_in [OF h, where p = "demo_page []" and cur = props_ready and tk = "''IGQ''"
          and uid = "''1789''" and un = "''ada.codes''"]
      demo_ready demo_callback o
    by (auto simp: demo_exchanges demo_data_def)
qed

text \<open>
  The return-location step in general: a truthy stored location that parses is
  removed from the store; a different pathname starts a navigation to it and leaves
  \<open>window.location\<close> alone, the same pathname strips query and hash in place.
\<close>

lemma loadStatus_end_fields:
  "localStorage (loadStatus_end r p) = localStorage p" "location (loadStatus_end r p) = location p"
  "navigation (loadStatus_end r p) = navigation p"
  by (simp_all add: loadStatus_end_def split: sum.splits)

lemma return_location_step:
  assumes "getItem ''instagram_return_url'' (localStorage p) = Some s" and "truthy s"
    and "new_URL env s = Inr u"
  shows "getItem ''instagram_return_url''
           (localStorage (handleOAuthCallback_afterLoadStatus env r p)) = None"
    and "pathname u \<noteq> pathname (location p) \<Longrightarrow>
           navigation (handleOAuthCallback_afterLoadStatus env r p) = Some u
           \<and> location (handleOAuthCallback_afterLoadStatus env r p) = location p"
    and "pathname u = pathname (location p) \<Longrightarrow>
           navigation (handleOAuthCallback_afterLoadStatus env r p) = navigation p
           \<and> location (handleOAuthCallback_afterLoadStatus env r p) =
               (location p)\<lparr>search := [], hash := []\<rparr>"
  using assms
  by (simp_all add: handleOAuthCallback_afterLoadStatus_def Let_def loadStatus_end_fields
      replaceState_pathname_def getItem_removeItem)

text \<open>
  Claim C8. After a successful exchange the return location is read and removed;
  a location with a different pathname is navigated to, otherwise the query is
  stripped in place. The navigation is said to discard the query marker: on the
  page below, whose stored return location itself carries \<open>instagram_auth\<close>, the
  navigation target keeps the marker.
\<close>

theorem navigation_keeps_marker:
  "navigation
     (handleOAuthCallback_afterLoadStatus (demo_env server_down) connect_ok
        (fst (handleOAuthCallback_afterConnect connect_ok
               (fst (handleOAuthCallback props_ready
                      (demo_page ''https://app.example.org/canvas/7?instagram_auth=success''))))))
     = Some (canvas_url [(''instagram_auth'', ''success'')])
   \<and> map_of (search (canvas_url [(''instagram_auth'', ''success'')])) ''instagram_auth''
       = Some ''success''"
  by (simp add: handleOAuthCallback_afterLoadStatus_def handleOAuthCallback_afterConnect_def
      handleOAuthCallback_def Let_def props_ready_def loggedIn_def demo_page_def
      callback_location_def truthy_def connectInstagram_send_def authenticatedFetch_def
      getAccessToken_def getItem_def ACCESS_TOKEN_KEY_def send_def connect_ok_def
      connectInstagram_result_def ok_def loadStatus_begin_def getInstagramStatus_send_def
      loadStatus_end_def getInstagramStatus_result_def removeItem_def demo_env_def
      demo_new_URL_def canvas_url_def)

end
